theory Spec2Isabelle
  imports Main "HOL-Library.Word" "HOL-Library.Sublist" "HOL-Library.AList"
begin

section \<open>Go errors\<close>

text \<open>
  The error values of package \<open>emperror.dev/errors\<close> as far as the functions below build
  them: \<open>errors.New\<close> makes a fresh error from a message and \<open>errors.Wrap\<close> puts a message
  around an existing one. A \<open>nil\<close> error is \<open>None\<close>; \<open>errors.Wrap(nil, msg)\<close> is \<open>nil\<close>.
\<close>

datatype go_error = New string | Wrapped go_error string

definition Wrap :: "go_error option \<Rightarrow> string \<Rightarrow> go_error option" where
  "Wrap err msg = (case err of None \<Rightarrow> None | Some e \<Rightarrow> Some (Wrapped e msg))"

section \<open>The Docker client singleton (package environment)\<close>

text \<open>
  The package-level variables \<open>_conce sync.Once\<close> and \<open>_client *client.Client\<close>. A
  \<open>sync.Once\<close> is its done flag. \<open>attempts\<close> counts how often
  \<open>client.NewClientWithOpts\<close> has been entered; it is the trace of the one effect
  of the closure besides the assignment to \<open>_client\<close>.
\<close>

record 'c docker_globals =
  conce :: bool
  client :: "'c option"
  attempts :: nat

definition docker_init :: "'c docker_globals" where
  "docker_init = \<lparr>conce = False, client = None, attempts = 0\<rparr>"

text \<open>
  \<open>client.NewClientWithOpts\<close> belongs to the Docker SDK. Its outcome is a parameter:
  \<open>new k\<close> is the pair (client, err) that the \<open>k\<close>-th entry into it returns.
\<close>

type_synonym 'c new_client = "nat \<Rightarrow> 'c option \<times> go_error option"

definition Docker ::
  "'c new_client \<Rightarrow> 'c docker_globals \<Rightarrow> ('c option \<times> go_error option) \<times> 'c docker_globals" where
  "Docker new g =
     (let (err, g') =
        (if conce g then (None, g)
         else (let (c, e) = new (attempts g)
               in (e, g\<lparr>conce := True, client := c, attempts := Suc (attempts g)\<rparr>)))
      in ((client g', Wrap err ''environment/docker: could not create client''), g'))"

text \<open>\<open>n\<close> successive calls of \<open>Docker()\<close>: what each returned, and the globals afterwards.\<close>

fun Docker_calls ::
  "'c new_client \<Rightarrow> nat \<Rightarrow> 'c docker_globals
    \<Rightarrow> ('c option \<times> go_error option) list \<times> 'c docker_globals" where
  "Docker_calls new 0 g = ([], g)"
| "Docker_calls new (Suc n) g =
     (let (r, g') = Docker new g; (rs, g'') = Docker_calls new n g' in (r # rs, g''))"

section \<open>The scheduler guard (package cron)\<close>

text \<open>
  Modelled from the spec: \<open>system.AtomicBool\<close> and its method \<open>SwapIf\<close> are not among the
  sources. The spec calls the variable \<open>o\<close> an explicit "already initialized" flag that is
  checked at construction time, and \<open>Scheduler\<close>'s comment says that additional calls
  result in an error. So \<open>SwapIf v\<close> stores \<open>v\<close> when the flag differs from \<open>v\<close> and
  reports whether it changed the flag. The zero value of the flag is \<open>False\<close>.
\<close>

definition SwapIf :: "bool \<Rightarrow> bool \<Rightarrow> bool \<times> bool" where
  "SwapIf v ab = (if ab \<noteq> v then (True, v) else (False, ab))"

record system_config =
  Timezone :: string
  ActivitySendCount :: "64 word"
  ActivitySendInterval :: "64 word"

text \<open>The two job structs \<open>activityCron\<close> and \<open>sftpCron\<close> with their fields \<open>mu\<close>, \<open>manager\<close>, \<open>max\<close>.\<close>

datatype 'm cron = ActivityCron bool 'm "64 word" | SftpCron bool 'm "64 word"

text \<open>
  What \<open>Scheduler\<close> asks of the libraries \<open>time\<close> and \<open>gocron\<close>: each call can fail. A job
  is registered with its interval (\<open>time.Duration\<close>, nanoseconds in 64 bits) and a task that
  closes over the context and the job struct; \<open>NewJob\<close> gives the scheduler with the job added.
\<close>

record ('loc, 'sch, 'ctx, 'm) gocron =
  LoadLocation :: "string \<Rightarrow> go_error + 'loc"
  NewScheduler :: "'loc \<Rightarrow> go_error + 'sch"
  NewJob :: "'sch \<Rightarrow> 64 word \<Rightarrow> 'ctx \<Rightarrow> 'm cron \<Rightarrow> go_error + 'sch"

definition Scheduler ::
  "('loc, 'sch, 'ctx, 'm) gocron \<Rightarrow> system_config \<Rightarrow> 'ctx \<Rightarrow> 'm \<Rightarrow> bool
    \<Rightarrow> (go_error + 'sch) \<times> bool" where
  "Scheduler lib cfg ctx m ov =
     (let (changed, o') = SwapIf True ov in
      if \<not> changed then
        (Inl (New ''cron: cannot call scheduler more than once in application lifecycle''), o')
      else
        (case LoadLocation lib (Timezone cfg) of
           Inl err \<Rightarrow> (Inl (Wrapped err ''cron: failed to parse configured system timezone''), o')
         | Inr location \<Rightarrow>
        (case NewScheduler lib location of
           Inl err \<Rightarrow> (Inl (Wrapped err ''cron: failed to create scheduler''), o')
         | Inr s \<Rightarrow>
        (let activity = ActivityCron False m (ActivitySendCount cfg);
             sftp = SftpCron False m (ActivitySendCount cfg);
             interval = ActivitySendInterval cfg * 1000000000
         in
        (case NewJob lib s interval ctx activity of
           Inl err \<Rightarrow> (Inl (Wrapped err ''cron: failed to create activity job''), o')
         | Inr s1 \<Rightarrow>
        (case NewJob lib s1 interval ctx sftp of
           Inl err \<Rightarrow> (Inl (Wrapped err ''cron: failed to create sftp job''), o')
         | Inr s2 \<Rightarrow> (Inr s2, o')))))))"

text \<open>
  A run of calls, each with its own libraries' behaviour, configuration and arguments,
  threading the package variable \<open>o\<close> (written \<open>ov\<close>: the name \<open>o\<close> is function
  composition in HOL).
\<close>

type_synonym ('loc, 'sch, 'ctx, 'm) scheduler_call =
  "('loc, 'sch, 'ctx, 'm) gocron \<times> system_config \<times> 'ctx \<times> 'm"

fun Scheduler_calls ::
  "('loc, 'sch, 'ctx, 'm) scheduler_call list \<Rightarrow> bool \<Rightarrow> (go_error + 'sch) list \<times> bool" where
  "Scheduler_calls [] ov = ([], ov)"
| "Scheduler_calls ((lib, cfg, ctx, m) # cs) ov =
     (let (r, o') = Scheduler lib cfg ctx m ov; (rs, o'') = Scheduler_calls cs o'
      in (r # rs, o''))"

section \<open>Environment variables (package environment)\<close>

text \<open>
  A value of type \<open>interface{}\<close> is a value together with its dynamic type. The
  constructors are the dynamic types \<open>Get\<close> switches on; \<open>VOther\<close> stands for \<open>nil\<close> and
  every other type. \<open>int\<close> has 64 bits on the platforms the repository builds for (amd64
  and arm64). Floating-point numbers stay abstract (\<open>'f\<close>, \<open>'d\<close>).
\<close>

datatype ('f, 'd) iface =
    VInt "64 word"
  | VInt32 "32 word"
  | VInt64 "64 word"
  | VFloat32 'f
  | VFloat64 'd
  | VBool bool
  | VString string
  | VOther

datatype panic = InterfaceConversion

text \<open>
  The single-result type assertion \<open>val.(T)\<close>: the value when the dynamic type is
  \<open>T\<close>, a run-time panic otherwise.
\<close>

definition assert_int :: "('f, 'd) iface \<Rightarrow> panic + 64 word" where
  "assert_int val = (case val of VInt x \<Rightarrow> Inr x | _ \<Rightarrow> Inl InterfaceConversion)"

definition assert_int64 :: "('f, 'd) iface \<Rightarrow> panic + 64 word" where
  "assert_int64 val = (case val of VInt64 x \<Rightarrow> Inr x | _ \<Rightarrow> Inl InterfaceConversion)"

definition assert_float32 :: "('f, 'd) iface \<Rightarrow> panic + 'f" where
  "assert_float32 val = (case val of VFloat32 x \<Rightarrow> Inr x | _ \<Rightarrow> Inl InterfaceConversion)"

definition assert_float64 :: "('f, 'd) iface \<Rightarrow> panic + 'd" where
  "assert_float64 val = (case val of VFloat64 x \<Rightarrow> Inr x | _ \<Rightarrow> Inl InterfaceConversion)"

definition assert_bool :: "('f, 'd) iface \<Rightarrow> panic + bool" where
  "assert_bool val = (case val of VBool x \<Rightarrow> Inr x | _ \<Rightarrow> Inl InterfaceConversion)"

definition assert_string :: "('f, 'd) iface \<Rightarrow> panic + string" where
  "assert_string val = (case val of VString x \<Rightarrow> Inr x | _ \<Rightarrow> Inl InterfaceConversion)"

text \<open>\<open>strconv.FormatInt(i, 10)\<close> and \<open>strconv.Itoa\<close>: the decimal digits, with a minus sign.\<close>

fun decimal :: "nat \<Rightarrow> string" where
  "decimal n =
     (if n < 10 then [''0123456789'' ! n]
      else decimal (n div 10) @ [''0123456789'' ! (n mod 10)])"

definition FormatInt :: "64 word \<Rightarrow> string" where
  "FormatInt i = (if sint i < 0 then CHR ''-'' # decimal (nat (- sint i)) else decimal (nat (sint i)))"

definition FormatBool :: "bool \<Rightarrow> string" where
  "FormatBool b = (if b then ''true'' else ''false'')"

definition then_return :: "panic + 'a \<Rightarrow> ('a \<Rightarrow> string) \<Rightarrow> panic + string" where
  "then_return a f = (case a of Inl p \<Rightarrow> Inl p | Inr x \<Rightarrow> Inr (f x))"

text \<open>
  \<open>Variables.Get\<close>. The \<open>%f\<close> formatting of the two float types is a parameter. The switch
  is on the dynamic type; each branch then asserts the type it names in its body. The
  warning logged on the fall-through path is not part of the result.
\<close>

definition Get ::
  "('f \<Rightarrow> string) \<Rightarrow> ('d \<Rightarrow> string) \<Rightarrow> (string \<rightharpoonup> ('f, 'd) iface) \<Rightarrow> string \<Rightarrow> panic + string" where
  "Get fmt32 fmt64 v key =
     (case v key of
        None \<Rightarrow> Inr ''''
      | Some val \<Rightarrow>
          (case val of
             VInt _ \<Rightarrow> then_return (assert_int val) FormatInt
           | VInt32 _ \<Rightarrow> then_return (assert_int64 val) FormatInt
           | VInt64 _ \<Rightarrow> then_return (assert_int64 val) FormatInt
           | VFloat32 _ \<Rightarrow> then_return (assert_float32 val) fmt32
           | VFloat64 _ \<Rightarrow> then_return (assert_float64 val) fmt64
           | VBool _ \<Rightarrow> then_return (assert_bool val) FormatBool
           | VString _ \<Rightarrow> then_return (assert_string val) (\<lambda>s. s)
           | VOther \<Rightarrow> Inr ''''))"

section \<open>The sandboxed filesystem (package server/filesystem)\<close>

text \<open>
  The sources hold the tests of the sandboxed filesystem (\<open>TestFilesystem_Blocks_Symlinks\<close>)
  and its callers, not the filesystem itself. Its path resolver and operation layer are
  therefore modelled from the spec, sections 3, 4.1, 4.2 and 4.3; the disk the tests set
  up is taken from the test.
\<close>

subsection \<open>The host file tree\<close>

text \<open>
  Modelled from the spec: the host file tree that the absent filesystem package works on.
  A host path is the list of its names from the host's \<open>/\<close>. An entry is a regular file
  (content and permission bits), a directory, or a symlink with the absolute host path
  it points to. The tree is an association list from paths to entries.
\<close>

type_synonym path = "string list"
type_synonym byte = "8 word"

datatype node = File "byte list" "32 word" | Dir | Symlink path

type_synonym disk = "(path \<times> node) list"

text \<open>
  Modelled from the spec: reading the entry at a host path (the "stat the entry" of
  section 4.1, not following a symlink).
\<close>

definition lookup :: "disk \<Rightarrow> path \<Rightarrow> node option" where
  "lookup d p = map_of d p"

text \<open>
  Modelled from the spec: the bytes an entry counts for in the usage counter (section 3,
  UsageCounter: "a running byte total"); only file content counts.
\<close>

definition node_size :: "node \<Rightarrow> int" where
  "node_size n = (case n of File bs _ \<Rightarrow> int (length bs) | _ \<Rightarrow> 0)"

text \<open>
  Modelled from the spec: the "prior size" at a path (section 8, round trip), zero where
  nothing is.
\<close>

definition size_at :: "disk \<Rightarrow> path \<Rightarrow> int" where
  "size_at d p = (case lookup d p of None \<Rightarrow> 0 | Some n \<Rightarrow> node_size n)"

text \<open>
  Modelled from the spec: the error taxonomy of sections 4.2 and 7. \<open>IOFailure\<close> stands for
  the "passthrough I/O failures from the underlying storage device".
\<close>

datatype fs_error =
  BadPathResolution | NotExist | NotDirectory | QuotaExceeded | IsDirectory | IOFailure

text \<open>
  Modelled from the spec: what the provisioning component supplies (section 6), the
  SandboxRoot and the disk quota, together with the two choices the spec leaves open: the
  number of symlink hops the resolver allows ("a bounded hop count") and the name \<open>Copy\<close>
  gives to the new entry "beside the original".
\<close>

record sandbox =
  root :: path
  quota :: int
  hop_budget :: nat
  copy_name :: "string \<Rightarrow> string"

text \<open>
  Modelled from the spec: the state the operations work on, the host tree and the
  UsageCounter of the one root (section 3).
\<close>

record fs_state =
  disk :: disk
  usage :: int

subsection \<open>Path resolver (spec section 4.1)\<close>

text \<open>
  Modelled from the spec: "split the relative path into components". A RelativePath is
  \<open>/\<close>-separated; an empty component (a leading, trailing or doubled separator) is kept
  here and skipped by the walk.
\<close>

fun split_path :: "string \<Rightarrow> string list" where
  "split_path [] = [[]]"
| "split_path (c # cs) =
     (if c = CHR ''/'' then [] # split_path cs
      else (case split_path cs of [] \<Rightarrow> [[c]] | w # ws \<Rightarrow> (c # w) # ws))"

text \<open>
  Modelled from the spec: the tagged outcome of section 9,
  \<open>Inside | OutsideEscape | MissingWithResolvedParent(parentRealPath, remainingSuffix)\<close>.
  \<open>OutsideViaSymlink\<close> keeps the components that were still to be walked below the
  escaping symlink: none when the symlink is the final component, some when "the caller
  expected a directory context". The two further outcomes are a regular file met where
  a directory is needed, and the exhausted hop budget.
\<close>

datatype resolved =
    Inside path
  | OutsideViaSymlink "string list"
  | Missing path "string list"
  | NotADirectory
  | TooManyHops

text \<open>
  Modelled from the spec: the algorithm of section 4.1. The walk goes through the
  components one at a time from the root; \<open>cur\<close> is the current real directory, relative
  to the root. A \<open>.\<close> is skipped. A \<open>..\<close> moves up in the real path and clamps at the
  root. Any other component is looked up: a missing entry ends the walk as \<open>Missing\<close>
  with the real parent and the unresolved components; a directory is entered; a symlink
  costs one hop of the budget and is resolved, the walk continuing from the root with
  the target's components, or stopping as \<open>OutsideViaSymlink\<close> when the target is not
  below the root. With \<open>follow = False\<close> a symlink that is the final component is the
  result itself (the entry, not what it points to), as \<open>Delete\<close> and \<open>Rename\<close> need it.
\<close>

fun walk :: "path \<Rightarrow> disk \<Rightarrow> bool \<Rightarrow> nat \<Rightarrow> path \<Rightarrow> string list \<Rightarrow> resolved" where
  "walk r d follow hops cur [] = Inside (r @ cur)"
| "walk r d follow hops cur (c # cs) =
     (if c = ''.'' \<or> c = [] then walk r d follow hops cur cs
      else if c = ''..'' then walk r d follow hops (butlast cur) cs
      else
        (case lookup d (r @ cur @ [c]) of
           None \<Rightarrow> Missing (r @ cur) (c # cs)
         | Some Dir \<Rightarrow> walk r d follow hops (cur @ [c]) cs
         | Some (File _ _) \<Rightarrow> if cs = [] then Inside (r @ cur @ [c]) else NotADirectory
         | Some (Symlink t) \<Rightarrow>
             if cs = [] \<and> \<not> follow then Inside (r @ cur @ [c])
             else
               (case hops of
                  0 \<Rightarrow> TooManyHops
                | Suc h \<Rightarrow>
                    if prefix r t then walk r d follow h [] (drop (length r) t @ cs)
                    else OutsideViaSymlink cs)))"

text \<open>
  Modelled from the spec: the contract \<open>Resolve(root, relativePath)\<close> of section 4.1, the
  walk from the root itself with the whole hop budget.
\<close>

definition Resolve :: "sandbox \<Rightarrow> disk \<Rightarrow> bool \<Rightarrow> string list \<Rightarrow> resolved" where
  "Resolve sb d follow comps = walk (root sb) d follow (hop_budget sb) [] comps"

text \<open>
  Modelled from the spec: what "the fully-resolved target lies outside the root" means,
  stated on the tree and without a budget. \<open>resolves_outside r d cur comps k\<close>: walking
  \<open>comps\<close> from the real directory \<open>cur\<close> goes through directories and through \<open>k\<close> symlinks,
  the last of which is the final component and points outside the root \<open>r\<close> (to a target
  that exists or not).
\<close>

inductive resolves_outside :: "path \<Rightarrow> disk \<Rightarrow> path \<Rightarrow> string list \<Rightarrow> nat \<Rightarrow> bool"
  for r :: path and d :: disk
where
  skip: "c = ''.'' \<or> c = [] \<Longrightarrow> resolves_outside r d cur cs k
          \<Longrightarrow> resolves_outside r d cur (c # cs) k"
| up: "resolves_outside r d (butlast cur) cs k \<Longrightarrow> resolves_outside r d cur (''..'' # cs) k"
| dir: "c \<noteq> ''.'' \<Longrightarrow> c \<noteq> [] \<Longrightarrow> c \<noteq> ''..'' \<Longrightarrow> lookup d (r @ cur @ [c]) = Some Dir
          \<Longrightarrow> resolves_outside r d (cur @ [c]) cs k \<Longrightarrow> resolves_outside r d cur (c # cs) k"
| link: "c \<noteq> ''.'' \<Longrightarrow> c \<noteq> [] \<Longrightarrow> c \<noteq> ''..'' \<Longrightarrow> lookup d (r @ cur @ [c]) = Some (Symlink t)
          \<Longrightarrow> prefix r t \<Longrightarrow> resolves_outside r d [] (drop (length r) t @ cs) k
          \<Longrightarrow> resolves_outside r d cur (c # cs) (Suc k)"
| out: "c \<noteq> ''.'' \<Longrightarrow> c \<noteq> [] \<Longrightarrow> c \<noteq> ''..'' \<Longrightarrow> lookup d (r @ cur @ [c]) = Some (Symlink t)
          \<Longrightarrow> \<not> prefix r t \<Longrightarrow> resolves_outside r d cur [c] (Suc 0)"

code_pred resolves_outside .

text \<open>
  Modelled from the spec: strict mode (section 4.1). An escape at the final component and
  a missing entry both surface as "not found"; an escaping symlink with components left
  below it "fails with a not-a-directory classification rather than bad-path-resolution
  or not-found".
\<close>

definition strict :: "resolved \<Rightarrow> fs_error + path" where
  "strict r =
     (case r of
        Inside rp \<Rightarrow> Inr rp
      | OutsideViaSymlink rest \<Rightarrow> if rest = [] then Inl NotExist else Inl NotDirectory
      | Missing _ _ \<Rightarrow> Inl NotExist
      | NotADirectory \<Rightarrow> Inl NotDirectory
      | TooManyHops \<Rightarrow> Inl IOFailure)"

text \<open>
  Modelled from the spec: what a creating operation is given to work on, an entry that
  exists at a real path or the existing real parent with the names to create below it
  (the \<open>MissingWithResolvedParent\<close> of section 9).
\<close>

datatype target = Existing path | Fresh path "string list"

text \<open>
  Modelled from the spec: creating mode (section 4.1). An escape at the final component
  is the distinct bad-path-resolution failure; \<open>Missing\<close> is acceptable, the parent that
  exists being inside the root, and gives the names the operation layer then creates.
  Among the unresolved components \<open>.\<close> and empty ones are dropped; a \<open>..\<close> below a
  missing entry is "not found".
\<close>

definition creating :: "resolved \<Rightarrow> fs_error + target" where
  "creating r =
     (case r of
        Inside rp \<Rightarrow> Inr (Existing rp)
      | OutsideViaSymlink rest \<Rightarrow> if rest = [] then Inl BadPathResolution else Inl NotDirectory
      | Missing parent remaining \<Rightarrow>
          (let names = filter (\<lambda>c. c \<noteq> [] \<and> c \<noteq> ''.'') remaining
           in if ''..'' \<in> set names then Inl NotExist else Inr (Fresh parent names))
      | NotADirectory \<Rightarrow> Inl NotDirectory
      | TooManyHops \<Rightarrow> Inl IOFailure)"

text \<open>Modelled from the spec: the real path a creating operation ends up working on.\<close>

definition target_path :: "target \<Rightarrow> path" where
  "target_path t = (case t of Existing rp \<Rightarrow> rp | Fresh parent names \<Rightarrow> parent @ names)"

text \<open>
  Modelled from the spec: "the operation layer then creates the missing suffix", one
  directory below the other, all within the validated real parent.
\<close>

fun make_dirs :: "disk \<Rightarrow> path \<Rightarrow> string list \<Rightarrow> disk" where
  "make_dirs d p [] = d"
| "make_dirs d p (c # cs) = make_dirs (AList.update (p @ [c]) Dir d) (p @ [c]) cs"

text \<open>
  Modelled from the spec: the directories above a new entry that are missing ("creates
  intermediate directories as needed").
\<close>

definition make_parents :: "disk \<Rightarrow> target \<Rightarrow> disk" where
  "make_parents d t =
     (case t of Existing _ \<Rightarrow> d | Fresh parent names \<Rightarrow> make_dirs d parent (butlast names))"

subsection \<open>Usage tracker (spec section 4.3)\<close>

text \<open>
  Modelled from the spec: \<open>Reserve(delta) -> bool\<close> is a check-and-add against the quota;
  a failed reservation leaves the counter as it was.
\<close>

definition Reserve :: "sandbox \<Rightarrow> int \<Rightarrow> int \<Rightarrow> bool \<times> int" where
  "Reserve sb u delta = (if u + delta > quota sb then (False, u) else (True, u + delta))"

text \<open>Modelled from the spec: \<open>Release(delta)\<close> decrements the counter.\<close>

definition Release :: "int \<Rightarrow> int \<Rightarrow> int" where
  "Release u delta = u - delta"

subsection \<open>Operation layer (spec section 4.2)\<close>

text \<open>
  Each operation returns what the caller sees (an error kind, or none) and the state
  afterwards.
\<close>

text \<open>
  Modelled from the spec: \<open>Write(path, reader, size, mode)\<close> resolves in creating mode;
  writing onto a directory is \<open>IsDirectory\<close>; when the usage after the write would exceed
  the quota it fails with \<open>QuotaExceeded\<close> without touching the disk; otherwise it creates
  the missing parents, replaces the entry at the real path and moves the usage by the
  difference between the new and the old size. The size is the length of the content.
\<close>

definition Write ::
  "sandbox \<Rightarrow> fs_state \<Rightarrow> string \<Rightarrow> byte list \<Rightarrow> 32 word \<Rightarrow> fs_error option \<times> fs_state" where
  "Write sb st p bs mode =
     (case creating (Resolve sb (disk st) True (split_path p)) of
        Inl e \<Rightarrow> (Some e, st)
      | Inr t \<Rightarrow>
          if lookup (disk st) (target_path t) = Some Dir then (Some IsDirectory, st)
          else
            (let (ok, u) =
               Reserve sb (usage st) (int (length bs) - size_at (disk st) (target_path t))
             in if \<not> ok then (Some QuotaExceeded, st)
                else (None,
                      \<lparr>disk = AList.update (target_path t) (File bs mode)
                                (make_parents (disk st) t),
                       usage = u\<rparr>)))"

text \<open>
  Modelled from the spec: \<open>CreateDirectory(newPath, parentPath)\<close> addresses \<open>newPath\<close> below
  \<open>parentPath\<close>, resolved in creating mode, and creates the directories that are missing.
  A directory that is already there is left as it is; a file in its place is
  \<open>NotDirectory\<close>.
\<close>

definition CreateDirectory ::
  "sandbox \<Rightarrow> fs_state \<Rightarrow> string \<Rightarrow> string \<Rightarrow> fs_error option \<times> fs_state" where
  "CreateDirectory sb st name p =
     (case creating (Resolve sb (disk st) True (split_path p @ split_path name)) of
        Inl e \<Rightarrow> (Some e, st)
      | Inr (Existing rp) \<Rightarrow>
          (case lookup (disk st) rp of
             Some Dir \<Rightarrow> (None, st)
           | _ \<Rightarrow> (Some NotDirectory, st))
      | Inr (Fresh parent names) \<Rightarrow> (None, st\<lparr>disk := make_dirs (disk st) parent names\<rparr>))"

text \<open>
  Modelled from the spec: the metadata \<open>Stat\<close> returns, for a file its size and
  permission bits.
\<close>

datatype file_info = FileInfo int "32 word" | DirInfo

text \<open>
  Modelled from the spec: \<open>Stat(path)\<close> resolves strictly and reports on the entry at the
  resolved real path.
\<close>

definition Stat :: "sandbox \<Rightarrow> fs_state \<Rightarrow> string \<Rightarrow> fs_error + file_info" where
  "Stat sb st p =
     (case strict (Resolve sb (disk st) True (split_path p)) of
        Inl e \<Rightarrow> Inl e
      | Inr rp \<Rightarrow>
          (case lookup (disk st) rp of
             Some (File bs mode) \<Rightarrow> Inr (FileInfo (int (length bs)) mode)
           | Some Dir \<Rightarrow> Inr DirInfo
           | _ \<Rightarrow> Inl NotExist))"

text \<open>
  Modelled from the spec: \<open>Copy(path)\<close> resolves strictly and copies content and permission
  bits of a file into a new entry beside the original. The new entry must not exist
  yet, and the copy grows the usage, so the usage tracker is consulted.
\<close>

definition Copy :: "sandbox \<Rightarrow> fs_state \<Rightarrow> string \<Rightarrow> fs_error option \<times> fs_state" where
  "Copy sb st p =
     (case strict (Resolve sb (disk st) True (split_path p)) of
        Inl e \<Rightarrow> (Some e, st)
      | Inr rp \<Rightarrow>
          (case lookup (disk st) rp of
             Some (File bs mode) \<Rightarrow>
               (let dst = butlast rp @ [copy_name sb (last rp)] in
                if lookup (disk st) dst \<noteq> None then (Some IOFailure, st)
                else
                  (let (ok, u) = Reserve sb (usage st) (int (length bs))
                   in if \<not> ok then (Some QuotaExceeded, st)
                      else (None, \<lparr>disk = AList.update dst (File bs mode) (disk st), usage = u\<rparr>)))
           | Some Dir \<Rightarrow> (Some IsDirectory, st)
           | _ \<Rightarrow> (Some NotExist, st)))"

text \<open>
  Modelled from the spec: \<open>Truncate(path)\<close> resolves strictly, empties the file and
  releases its size from the usage.
\<close>

definition Truncate :: "sandbox \<Rightarrow> fs_state \<Rightarrow> string \<Rightarrow> fs_error option \<times> fs_state" where
  "Truncate sb st p =
     (case strict (Resolve sb (disk st) True (split_path p)) of
        Inl e \<Rightarrow> (Some e, st)
      | Inr rp \<Rightarrow>
          (case lookup (disk st) rp of
             Some (File bs mode) \<Rightarrow>
               (None, \<lparr>disk = AList.update rp (File [] mode) (disk st),
                       usage = Release (usage st) (int (length bs))\<rparr>)
           | Some Dir \<Rightarrow> (Some IsDirectory, st)
           | _ \<Rightarrow> (Some NotExist, st)))"

text \<open>
  Modelled from the spec: the bytes counted for a directory, those of every entry at or
  below its path.
\<close>

definition tree_size :: "disk \<Rightarrow> path \<Rightarrow> int" where
  "tree_size d p = sum_list (map (\<lambda>(q, n). node_size n) (filter (\<lambda>(q, n). prefix p q) d))"

text \<open>Modelled from the spec: removing a directory with everything below it.\<close>

definition remove_tree :: "path \<Rightarrow> disk \<Rightarrow> disk" where
  "remove_tree p d = filter (\<lambda>(q, n). \<not> prefix p q) d"

text \<open>
  Modelled from the spec: \<open>Delete(path)\<close> resolves strictly, the target must exist, and
  deletes the directory entry itself: a symlink as its final component is not followed,
  and only the link is removed. A directory goes with everything below it. The usage
  is released by the bytes removed. The root is not an entry of the sandbox and is
  refused.
\<close>

definition Delete :: "sandbox \<Rightarrow> fs_state \<Rightarrow> string \<Rightarrow> fs_error option \<times> fs_state" where
  "Delete sb st p =
     (case strict (Resolve sb (disk st) False (split_path p)) of
        Inl e \<Rightarrow> (Some e, st)
      | Inr rp \<Rightarrow>
          if rp = root sb then (Some IOFailure, st)
          else
            (case lookup (disk st) rp of
               None \<Rightarrow> (Some NotExist, st)
             | Some Dir \<Rightarrow>
                 (None, \<lparr>disk = remove_tree rp (disk st),
                         usage = Release (usage st) (tree_size (disk st) rp)\<rparr>)
             | Some n \<Rightarrow>
                 (None, \<lparr>disk = AList.delete rp (disk st),
                         usage = Release (usage st) (node_size n)\<rparr>)))"

text \<open>
  Modelled from the spec: relabelling a directory, every entry at or below the old path
  moving to the same place below the new one.
\<close>

definition move_tree :: "path \<Rightarrow> path \<Rightarrow> disk \<Rightarrow> disk" where
  "move_tree src dst d =
     map (\<lambda>(q, n). if prefix src q then (dst @ drop (length src) q, n) else (q, n)) d"

text \<open>
  Modelled from the spec: \<open>Rename(oldPath, newPath)\<close> resolves \<open>oldPath\<close> strictly, the entry
  must exist and is itself what is renamed (a symlink is not followed), and resolves the
  destination in creating mode, creating its missing parents. The rename is one atomic
  step on one volume: the entry leaves the old name and replaces what the new name held.
  A directory moves with everything below it. Renaming onto an existing directory or
  moving a directory below itself is refused; renaming an entry to itself does nothing.
\<close>

definition Rename :: "sandbox \<Rightarrow> fs_state \<Rightarrow> string \<Rightarrow> string \<Rightarrow> fs_error option \<times> fs_state" where
  "Rename sb st oldp newp =
     (case strict (Resolve sb (disk st) False (split_path oldp)) of
        Inl e \<Rightarrow> (Some e, st)
      | Inr src \<Rightarrow>
          (case lookup (disk st) src of
             None \<Rightarrow> (Some NotExist, st)
           | Some n \<Rightarrow>
               if src = root sb then (Some IOFailure, st)
               else
                 (case creating (Resolve sb (disk st) False (split_path newp)) of
                    Inl e \<Rightarrow> (Some e, st)
                  | Inr t \<Rightarrow>
                      (let dst = target_path t in
                       if dst = src then (None, st)
                       else if lookup (disk st) dst = Some Dir then (Some IsDirectory, st)
                       else if n = Dir \<and> prefix src dst then (Some IOFailure, st)
                       else
                         (let d1 = make_parents (disk st) t;
                              d2 = (if n = Dir then move_tree src dst (AList.delete dst d1)
                                    else AList.update dst n (AList.delete src d1))
                          in (None,
                              \<lparr>disk = d2,
                               usage = Release (usage st) (size_at (disk st) dst)\<rparr>))))))"

subsection \<open>The disk of the symlink tests\<close>

text \<open>
  What \<open>TestFilesystem_Blocks_Symlinks\<close> sets up before its first case: the sandbox root
  is \<open>server\<close> below the test's directory \<open>rfs.root\<close>; beside the root lie the file
  \<open>malicious.txt\<close> and the directory \<open>malicious_dir\<close>; inside the root lie four symlinks.
\<close>

definition rfs_root :: path where
  "rfs_root = [''tmp'', ''rfs'']"

definition test_sandbox :: sandbox where
  "test_sandbox =
     \<lparr>root = rfs_root @ [''server''], quota = 1024, hop_budget = 40,
      copy_name = (\<lambda>n. n @ '' copy'')\<rparr>"

definition test_disk :: disk where
  "test_disk =
     [(rfs_root, Dir),
      (rfs_root @ [''server''], Dir),
      (rfs_root @ [''malicious.txt''], File [101, 120, 116, 101, 114, 110, 97, 108, 32, 99, 111, 110, 116, 101, 110, 116] 420),
      (rfs_root @ [''malicious_dir''], Dir),
      (rfs_root @ [''server'', ''symlinked.txt''], Symlink (rfs_root @ [''malicious.txt''])),
      (rfs_root @ [''server'', ''symlinked_does_not_exist.txt''],
         Symlink (rfs_root @ [''malicious_does_not_exist.txt''])),
      (rfs_root @ [''server'', ''symlinked_does_not_exist2.txt''],
         Symlink (rfs_root @ [''server'', ''symlinked_does_not_exist.txt''])),
      (rfs_root @ [''server'', ''external_dir''], Symlink (rfs_root @ [''malicious_dir'']))]"

definition test_state :: fs_state where
  "test_state = \<lparr>disk = test_disk, usage = 0\<rparr>"

subsection \<open>The quota scenario\<close>

text \<open>The end-to-end scenario of spec section 8: an empty root with quota 100.\<close>

definition quota_sandbox :: sandbox where
  "quota_sandbox =
     \<lparr>root = [''srv'', ''server''], quota = 100, hop_budget = 40,
      copy_name = (\<lambda>n. n @ '' copy'')\<rparr>"

definition quota_start :: fs_state where
  "quota_start = \<lparr>disk = [([''srv'', ''server''], Dir)], usage = 0\<rparr>"

section \<open>Theorems: the Docker client singleton\<close>

lemma Docker_done:
  "conce g \<Longrightarrow> Docker new g = ((client g, None), g)"
  by (simp add: Docker_def Wrap_def)

lemma Docker_first:
  "\<not> conce g \<Longrightarrow>
   Docker new g =
     ((fst (new (attempts g)), Wrap (snd (new (attempts g))) ''environment/docker: could not create client''),
      g\<lparr>conce := True, client := fst (new (attempts g)), attempts := Suc (attempts g)\<rparr>)"
  by (simp add: Docker_def split: prod.splits)

lemma Docker_calls_done:
  "conce g \<Longrightarrow> Docker_calls new n g = (replicate n (client g, None), g)"
  by (induction n) (simp_all add: Docker_done)

lemma Docker_calls_init:
  "Docker_calls new (Suc n) docker_init =
     ((fst (new 0), Wrap (snd (new 0)) ''environment/docker: could not create client'')
        # replicate n (fst (new 0), None),
      \<lparr>conce = True, client = fst (new 0), attempts = 1\<rparr>)"
  by (simp add: Docker_first Docker_calls_done docker_init_def)


text \<open>
  C8. \<open>Docker()\<close> is idempotent. In any run of calls that starts from the zero values of the
  package variables, \<open>client.NewClientWithOpts\<close> is entered at most once, every call
  returns the client handle that the first entry produced, and a further call changes
  neither the package variables nor the handle returned.
\<close>

theorem Docker_idempotent:
  "Docker_calls new n docker_init = (rs, g) \<Longrightarrow>
     attempts g \<le> 1 \<and> (\<forall>r \<in> set rs. fst r = fst (new 0)) \<and>
     (0 < n \<longrightarrow> client g = fst (new 0) \<and> Docker new' g = ((fst (new 0), None), g))"
proof (cases n)
  case 0
  assume "Docker_calls new n docker_init = (rs, g)"
  with 0 show ?thesis by (auto simp: docker_init_def)
next
  case (Suc k)
  assume "Docker_calls new n docker_init = (rs, g)"
  with Suc have rs: "rs = (fst (new 0), Wrap (snd (new 0)) ''environment/docker: could not create client'')
        # replicate k (fst (new 0), None)"
    and g: "g = \<lparr>conce = True, client = fst (new 0), attempts = 1\<rparr>"
    by (simp_all add: Docker_calls_init del: Docker_calls.simps)
  from g have "Docker new' g = ((fst (new 0), None), g)"
    by (simp add: Docker_done)
  with rs g show ?thesis by auto
qed

theorem Docker_idempotent_witness:
  "Docker_calls (\<lambda>k. (Some k, None)) 3 docker_init
     = ([(Some 0, None), (Some 0, None), (Some 0, None)],
        \<lparr>conce = True, client = Some 0, attempts = 1\<rparr>)
   \<and> attempts \<lparr>conce = True, client = Some (0::nat), attempts = 1\<rparr> \<le> 1
   \<and> map fst [(Some (0::nat), None :: go_error option), (Some 0, None), (Some 0, None)]
       = [Some 0, Some 0, Some 0]
   \<and> Docker (\<lambda>k. (Some (k + 7), None)) \<lparr>conce = True, client = Some (0::nat), attempts = 1\<rparr>
       = ((Some 0, None), \<lparr>conce = True, client = Some 0, attempts = 1\<rparr>)"
proof -
  have run: "Docker_calls (\<lambda>k. (Some k, None)) 3 docker_init
     = ([(Some 0, None), (Some 0, None), (Some 0, None)],
        \<lparr>conce = True, client = Some 0, attempts = 1\<rparr>)"
    by (simp add: numeral_3_eq_3 Docker_def Wrap_def docker_init_def)
  from Docker_idempotent [OF run, of "\<lambda>k. (Some (k + 7), None)"] run show ?thesis
    by simp
qed

text \<open>
  C10. When the first entry into \<open>client.NewClientWithOpts\<close> returns no client and an
  error, the first call of \<open>Docker()\<close> returns that error (wrapped), the constructor is
  entered exactly once however many calls follow, and every later call returns a nil
  client with a nil error.
\<close>

theorem Docker_failure_not_retried:
  "new 0 = (None, Some e) \<Longrightarrow> Docker_calls new (Suc n) docker_init = (rs, g) \<Longrightarrow>
     rs = (None, Some (Wrapped e ''environment/docker: could not create client''))
            # replicate n (None, None)
     \<and> attempts g = 1 \<and> client g = None"
  by (auto simp: Docker_calls_init Wrap_def simp del: Docker_calls.simps)

theorem Docker_failure_not_retried_witness:
  "(\<lambda>k. if k = 0 then (None, Some (New ''unreachable'')) else (Some k, None)) (0::nat)
      = (None, Some (New ''unreachable''))
   \<and> Docker_calls (\<lambda>k. if k = 0 then (None, Some (New ''unreachable'')) else (Some k, None))
        (Suc 2) docker_init
      = ([(None, Some (Wrapped (New ''unreachable'') ''environment/docker: could not create client'')),
          (None, None), (None, None)],
         \<lparr>conce = True, client = None, attempts = 1\<rparr>)"
proof -
  let ?new = "\<lambda>k::nat. if k = 0 then (None :: nat option, Some (New ''unreachable'')) else (Some k, None)"
  have h: "?new 0 = (None, Some (New ''unreachable''))" by simp
  have run: "Docker_calls ?new (Suc 2) docker_init
      = ([(None, Some (Wrapped (New ''unreachable'') ''environment/docker: could not create client'')),
          (None, None), (None, None)],
         \<lparr>conce = True, client = None, attempts = 1\<rparr>)"
    using Docker_calls_init [of ?new 2]
    by (simp add: Wrap_def numeral_2_eq_2 del: Docker_calls.simps)
  from Docker_failure_not_retried [OF h run] h run show ?thesis
    by (simp del: Docker_calls.simps)
qed

section \<open>Theorems: the scheduler guard\<close>

lemma Scheduler_flag_set:
  "snd (Scheduler lib cfg ctx m ov) = True"
  by (simp add: Scheduler_def SwapIf_def Let_def split: sum.splits)

lemma Scheduler_again:
  "Scheduler lib cfg ctx m True =
     (Inl (New ''cron: cannot call scheduler more than once in application lifecycle''), True)"
  by (simp add: Scheduler_def SwapIf_def)

lemma Scheduler_calls_again:
  "Scheduler_calls cs True =
     (replicate (length cs)
        (Inl (New ''cron: cannot call scheduler more than once in application lifecycle'')), True)"
  by (induction cs) (auto simp: Scheduler_again)

text \<open>
  C7. In a run of calls of \<open>cron.Scheduler\<close> that starts with the flag \<open>o\<close> at its zero
  value, the first call is the only one that can return a scheduler: it leaves the
  flag set, and each later call, whatever its arguments, its configuration and the
  behaviour of the libraries, returns the error "cannot call scheduler more than once"
  and no scheduler. The result of a later call does not mention the libraries: it does
  not enter construction.
\<close>

theorem Scheduler_once:
  "Scheduler_calls ((lib, cfg, ctx, m) # cs) False =
     (fst (Scheduler lib cfg ctx m False)
        # replicate (length cs)
            (Inl (New ''cron: cannot call scheduler more than once in application lifecycle'')),
      True)"
proof -
  obtain r o' where first: "Scheduler lib cfg ctx m False = (r, o')"
    by (cases "Scheduler lib cfg ctx m False")
  with Scheduler_flag_set [of lib cfg ctx m False] have "o' = True" by simp
  with first show ?thesis by (simp add: Scheduler_calls_again)
qed

section \<open>Theorems: environment variables\<close>

text \<open>
  C9. There are inputs on which \<open>Variables.Get\<close> panics: whenever the value under the
  queried key has dynamic type \<open>int32\<close>, the \<open>int32\<close> branch asserts \<open>int64\<close>, the
  assertion fails, and \<open>Get\<close> panics instead of returning the decimal digits of the value.
\<close>

theorem Get_int32_panics:
  "v key = Some (VInt32 x) \<Longrightarrow>
     Get fmt32 fmt64 v key = Inl InterfaceConversion \<and>
     Get fmt32 fmt64 v key \<noteq> Inr (FormatInt (scast x))"
  by (simp add: Get_def assert_int64_def then_return_def)

theorem Get_int32_panics_witness:
  "[''SERVER_PORT'' \<mapsto> VInt32 25565] ''SERVER_PORT'' = Some (VInt32 25565)
   \<and> Get (\<lambda>u::unit. ''0.000000'') (\<lambda>u::unit. ''0.000000'') [''SERVER_PORT'' \<mapsto> VInt32 25565] ''SERVER_PORT''
       = Inl InterfaceConversion
   \<and> Get (\<lambda>u::unit. ''0.000000'') (\<lambda>u::unit. ''0.000000'') [''SERVER_PORT'' \<mapsto> VInt64 25565] ''SERVER_PORT''
       = Inr ''25565''"
proof -
  have h: "[''SERVER_PORT'' \<mapsto> VInt32 25565 :: (unit, unit) iface] ''SERVER_PORT'' = Some (VInt32 25565)"
    by simp
  have ok: "Get (\<lambda>u::unit. ''0.000000'') (\<lambda>u::unit. ''0.000000'') [''SERVER_PORT'' \<mapsto> VInt64 25565] ''SERVER_PORT''
       = Inr ''25565''"
    by (simp add: Get_def assert_int64_def then_return_def FormatInt_def)
  from Get_int32_panics
         [of "[''SERVER_PORT'' \<mapsto> VInt32 25565]" "''SERVER_PORT''" 25565
             "\<lambda>u::unit. ''0.000000''" "\<lambda>u::unit. ''0.000000''", OF h] h ok
  show ?thesis by simp
qed

section \<open>Theorems: the path resolver\<close>

text \<open>
  What the walk hands to the operations lies at or below the root: the real path of an
  entry that exists, and the real parent of one that is missing.
\<close>

lemma walk_within_root:
  "walk r d f h cur comps = Inside rp \<Longrightarrow> prefix r rp"
  by (induction r d f h cur comps rule: walk.induct)
     (auto split: if_splits option.splits node.splits nat.splits)

lemma walk_missing_within_root:
  "walk r d f h cur comps = Missing parent rest \<Longrightarrow> prefix r parent"
  by (induction r d f h cur comps rule: walk.induct)
     (auto split: if_splits option.splits node.splits nat.splits)

text \<open>
  Components below an escaping symlink do not change where the walk stops: they are what
  is left over.
\<close>

lemma walk_append:
  "walk r d True h cur a = OutsideViaSymlink s \<Longrightarrow> b \<noteq> [] \<Longrightarrow>
   walk r d f h cur (a @ b) = OutsideViaSymlink (s @ b)"
proof (induction r d True h cur a arbitrary: s rule: walk.induct)
  case (1 r d hops cur)
  then show ?case by simp
next
  case (2 r d hops cur c cs)
  show ?case
  proof (cases "c = ''.'' \<or> c = []")
    case True
    with 2 show ?thesis by simp
  next
    case dots: False
    show ?thesis
    proof (cases "c = ''..''")
      case True
      with 2 dots show ?thesis by simp
    next
      case plain: False
      show ?thesis
      proof (cases "lookup d (r @ cur @ [c])")
        case None
        with 2 dots plain show ?thesis by simp
      next
        case (Some n)
        show ?thesis
        proof (cases n)
          case (File bs m)
          with 2 dots plain Some show ?thesis by (simp split: if_splits)
        next
          case Dir
          with 2 dots plain Some show ?thesis by simp
        next
          case (Symlink t)
          show ?thesis
          proof (cases hops)
            case 0
            with 2 dots plain Some Symlink show ?thesis by simp
          next
            case (Suc k)
            with 2 dots plain Some Symlink show ?thesis
              by (cases "prefix r t") simp_all
          qed
        qed
      qed
    qed
  qed
qed

text \<open>
  The walk and the declarative reading agree: with a budget of at least \<open>k\<close> hops the walk
  classifies as \<open>OutsideViaSymlink []\<close> exactly the paths that resolve outside through
  \<open>k\<close> symlinks.
\<close>

lemma walk_resolves_outside:
  "resolves_outside r d cur comps k \<Longrightarrow> k \<le> h \<Longrightarrow>
   walk r d True h cur comps = OutsideViaSymlink []"
proof (induction arbitrary: h rule: resolves_outside.induct)
  case (skip c cur cs k)
  then show ?case by auto
next
  case (up cur cs k)
  then show ?case by simp
next
  case (dir c cur cs k)
  then show ?case by simp
next
  case (link c cur t cs k)
  then obtain h' where "h = Suc h'" "k \<le> h'" by (cases h) auto
  with link show ?case by simp
next
  case (out c cur t)
  then obtain h' where "h = Suc h'" by (cases h) auto
  with out show ?case by simp
qed

lemma resolves_outside_walk:
  "walk r d True h cur comps = OutsideViaSymlink [] \<Longrightarrow>
   \<exists>k\<le>h. resolves_outside r d cur comps k"
proof (induction r d True h cur comps rule: walk.induct)
  case (1 r d hops cur)
  then show ?case by simp
next
  case (2 r d hops cur c cs)
  show ?case
  proof (cases "c = ''.'' \<or> c = []")
    case True
    with 2 show ?thesis by (auto intro: resolves_outside.skip)
  next
    case dots: False
    show ?thesis
    proof (cases "c = ''..''")
      case True
      with 2 dots show ?thesis by (auto intro: resolves_outside.up)
    next
      case plain: False
      show ?thesis
      proof (cases "lookup d (r @ cur @ [c])")
        case None
        with 2 dots plain show ?thesis by simp
      next
        case (Some n)
        show ?thesis
        proof (cases n)
          case (File bs m)
          with 2 dots plain Some show ?thesis by (simp split: if_splits)
        next
          case Dir
          with 2 dots plain Some show ?thesis by (auto intro: resolves_outside.dir)
        next
          case (Symlink t)
          show ?thesis
          proof (cases hops)
            case 0
            with 2 dots plain Some Symlink show ?thesis by simp
          next
            case (Suc h')
            show ?thesis
            proof (cases "prefix r t")
              case True
              with 2 dots plain Some Symlink Suc
              have w: "walk r d True h' [] (drop (length r) t @ cs) = OutsideViaSymlink []"
                by simp
              have "\<exists>k\<le>h'. resolves_outside r d [] (drop (length r) t @ cs) k"
              proof (rule "2.hyps"(4) [OF dots plain Some Symlink _ Suc True w])
                show "\<not> (cs = [] \<and> \<not> True)" by simp
              qed
              then obtain k where "k \<le> h'" "resolves_outside r d [] (drop (length r) t @ cs) k"
                by blast
              with dots plain Some Symlink True Suc
              have "resolves_outside r d cur (c # cs) (Suc k)" "Suc k \<le> hops"
                by (auto intro: resolves_outside.link)
              then show ?thesis by blast
            next
              case False
              with 2 dots plain Some Symlink Suc have "cs = []" by simp
              with dots plain Some Symlink False Suc
              have "resolves_outside r d cur (c # cs) (Suc 0)" "Suc 0 \<le> hops"
                by (auto intro: resolves_outside.out)
              then show ?thesis by blast
            qed
          qed
        qed
      qed
    qed
  qed
qed

lemma Resolve_outside_iff:
  "Resolve sb d True comps = OutsideViaSymlink [] \<longleftrightarrow>
     (\<exists>k\<le>hop_budget sb. resolves_outside (root sb) d [] comps k)"
  unfolding Resolve_def
  by (blast intro: walk_resolves_outside dest: resolves_outside_walk)

lemma Resolve_outside:
  "resolves_outside (root sb) d [] comps k \<Longrightarrow> k \<le> hop_budget sb \<Longrightarrow>
   Resolve sb d True comps = OutsideViaSymlink []"
  by (auto simp: Resolve_outside_iff)

lemma Resolve_below_outside:
  "resolves_outside (root sb) d [] anc k \<Longrightarrow> k \<le> hop_budget sb \<Longrightarrow> desc \<noteq> [] \<Longrightarrow>
   Resolve sb d f (anc @ desc) = OutsideViaSymlink desc"
  using walk_append [of "root sb" d "hop_budget sb" "[]" anc "[]" desc f]
    walk_resolves_outside [of "root sb" d "[]" anc k "hop_budget sb"]
  by (simp add: Resolve_def)

lemma strict_outside_final: "strict (OutsideViaSymlink []) = Inl NotExist"
  by (simp add: strict_def)

lemma strict_outside_below: "rest \<noteq> [] \<Longrightarrow> strict (OutsideViaSymlink rest) = Inl NotDirectory"
  by (simp add: strict_def)

lemma strict_missing: "strict (Missing parent rest) = Inl NotExist"
  by (simp add: strict_def)

lemma creating_outside_final: "creating (OutsideViaSymlink []) = Inl BadPathResolution"
  by (simp add: creating_def)

lemma creating_outside_below:
  "rest \<noteq> [] \<Longrightarrow> creating (OutsideViaSymlink rest) = Inl NotDirectory"
  by (simp add: creating_def)

subsection \<open>The disk of the symlink tests\<close>

lemmas test_defs = test_sandbox_def test_state_def test_disk_def rfs_root_def lookup_def

lemma test_symlinked:
  "resolves_outside (root test_sandbox) test_disk [] (split_path ''symlinked.txt'') (Suc 0)"
  by (simp, rule resolves_outside.out [where t = "rfs_root @ [''malicious.txt'']"])
     (simp_all add: test_defs)

lemma test_symlinked_does_not_exist:
  "resolves_outside (root test_sandbox) test_disk []
     (split_path ''symlinked_does_not_exist.txt'') (Suc 0)"
  by (simp, rule resolves_outside.out [where t = "rfs_root @ [''malicious_does_not_exist.txt'']"])
     (simp_all add: test_defs)

lemma test_symlinked_does_not_exist2:
  "resolves_outside (root test_sandbox) test_disk []
     (split_path ''symlinked_does_not_exist2.txt'') (Suc (Suc 0))"
proof -
  have "resolves_outside (root test_sandbox) test_disk []
          (drop (length (root test_sandbox))
             (rfs_root @ [''server'', ''symlinked_does_not_exist.txt'']) @ []) (Suc 0)"
    using test_symlinked_does_not_exist by (simp add: test_defs)
  then have "resolves_outside (root test_sandbox) test_disk []
          [''symlinked_does_not_exist2.txt''] (Suc (Suc 0))"
    by (rule resolves_outside.link [rotated -1]) (simp_all add: test_defs)
  then show ?thesis by simp
qed

lemma test_external_dir:
  "resolves_outside (root test_sandbox) test_disk [] [''external_dir''] (Suc 0)"
  by (rule resolves_outside.out [where t = "rfs_root @ [''malicious_dir'']"])
     (simp_all add: test_defs)


section \<open>Theorems: the operation layer\<close>








lemma test_absent:
  "Resolve test_sandbox (disk test_state) True (split_path ''absent.txt'')
     = Missing (root test_sandbox) [''absent.txt'']"
  by (simp add: Resolve_def test_defs)



text \<open>
  C4. A \<open>Write\<close> that is admissible but for the quota (its path resolves in creating mode
  and does not name a directory), and whose size would push the usage over the quota,
  fails with \<open>QuotaExceeded\<close> and leaves disk and usage as they were. And the scenario:
  with quota 100 and an empty root, writing 60 bytes to \<open>a.txt\<close> succeeds (usage 60),
  writing 50 bytes to \<open>b.txt\<close> fails with \<open>QuotaExceeded\<close> (state unchanged, usage 60),
  deleting \<open>a.txt\<close> succeeds (usage 0), and writing the 50 bytes to \<open>b.txt\<close> again
  succeeds (usage 50).
\<close>

theorem Write_over_quota:
  "(creating (Resolve sb (disk st) True (split_path p)) = Inr t \<longrightarrow>
    lookup (disk st) (target_path t) \<noteq> Some Dir \<longrightarrow>
    quota sb < usage st + (int (length bs) - size_at (disk st) (target_path t)) \<longrightarrow>
    Write sb st p bs mode = (Some QuotaExceeded, st)) \<and>
   (let (r1, s1) = Write quota_sandbox quota_start ''a.txt'' (replicate 60 0) 420;
        (r2, s2) = Write quota_sandbox s1 ''b.txt'' (replicate 50 0) 420;
        (r3, s3) = Delete quota_sandbox s2 ''a.txt'';
        (r4, s4) = Write quota_sandbox s3 ''b.txt'' (replicate 50 0) 420
    in r1 = None \<and> usage s1 = 60 \<and>
       r2 = Some QuotaExceeded \<and> s2 = s1 \<and>
       r3 = None \<and> usage s3 = 0 \<and>
       r4 = None \<and> usage s4 = 50 \<and>
       lookup (disk s4) (root quota_sandbox @ [''b.txt'']) = Some (File (replicate 50 0) 420) \<and>
       lookup (disk s4) (root quota_sandbox @ [''a.txt'']) = None)"
proof -
  have general: "creating (Resolve sb (disk st) True (split_path p)) = Inr t \<longrightarrow>
    lookup (disk st) (target_path t) \<noteq> Some Dir \<longrightarrow>
    quota sb < usage st + (int (length bs) - size_at (disk st) (target_path t)) \<longrightarrow>
    Write sb st p bs mode = (Some QuotaExceeded, st)"
    by (simp add: Write_def Reserve_def)
  have w1: "Write quota_sandbox quota_start ''a.txt'' (replicate 60 0) 420
      = (None, \<lparr>disk = [([''srv'', ''server''], Dir),
                         ([''srv'', ''server'', ''a.txt''], File (replicate 60 0) 420)],
                 usage = 60\<rparr>)"
    by (simp add: Write_def Resolve_def creating_def target_path_def make_parents_def
        Reserve_def size_at_def lookup_def quota_sandbox_def quota_start_def)
  have w2: "Write quota_sandbox
       \<lparr>disk = [([''srv'', ''server''], Dir),
                ([''srv'', ''server'', ''a.txt''], File (replicate 60 0) 420)],
        usage = 60\<rparr> ''b.txt'' (replicate 50 0) 420
      = (Some QuotaExceeded,
         \<lparr>disk = [([''srv'', ''server''], Dir),
                  ([''srv'', ''server'', ''a.txt''], File (replicate 60 0) 420)],
          usage = 60\<rparr>)"
    by (simp add: Write_def Resolve_def creating_def target_path_def make_parents_def
        Reserve_def size_at_def lookup_def quota_sandbox_def)
  have d3: "Delete quota_sandbox
       \<lparr>disk = [([''srv'', ''server''], Dir),
                ([''srv'', ''server'', ''a.txt''], File (replicate 60 0) 420)],
        usage = 60\<rparr> ''a.txt''
      = (None, \<lparr>disk = [([''srv'', ''server''], Dir)], usage = 0\<rparr>)"
    by (simp add: Delete_def Resolve_def strict_def Release_def node_size_def lookup_def
        AList.delete_eq quota_sandbox_def)
  have w4: "Write quota_sandbox \<lparr>disk = [([''srv'', ''server''], Dir)], usage = 0\<rparr>
        ''b.txt'' (replicate 50 0) 420
      = (None, \<lparr>disk = [([''srv'', ''server''], Dir),
                         ([''srv'', ''server'', ''b.txt''], File (replicate 50 0) 420)],
                 usage = 50\<rparr>)"
    by (simp add: Write_def Resolve_def creating_def target_path_def make_parents_def
        Reserve_def size_at_def lookup_def quota_sandbox_def)
  show ?thesis
    unfolding w1 w2 d3 w4 Let_def prod.case
    using general by (simp add: lookup_def quota_sandbox_def)
qed


theorem Write_over_quota_witness:
  "creating (Resolve quota_sandbox
       [([''srv'', ''server''], Dir),
        ([''srv'', ''server'', ''a.txt''], File (replicate 60 0) 420)] True (split_path ''b.txt''))
     = Inr (Fresh [''srv'', ''server''] [''b.txt'']) \<and>
   lookup [([''srv'', ''server''], Dir),
           ([''srv'', ''server'', ''a.txt''], File (replicate 60 0) 420)]
      [''srv'', ''server'', ''b.txt''] \<noteq> Some Dir \<and>
   quota quota_sandbox < 60 + (int (length (replicate 50 (0::byte))) - 0) \<and>
   Write quota_sandbox
       \<lparr>disk = [([''srv'', ''server''], Dir),
                ([''srv'', ''server'', ''a.txt''], File (replicate 60 0) 420)],
        usage = 60\<rparr> ''b.txt'' (replicate 50 0) 420
      = (Some QuotaExceeded,
         \<lparr>disk = [([''srv'', ''server''], Dir),
                  ([''srv'', ''server'', ''a.txt''], File (replicate 60 0) 420)],
          usage = 60\<rparr>)"
proof -
  let ?d = "[([''srv'', ''server''], Dir),
            ([''srv'', ''server'', ''a.txt''], File (replicate 60 0) 420)]"
  let ?st = "\<lparr>disk = ?d, usage = 60\<rparr>"
  have c: "creating (Resolve quota_sandbox (disk ?st) True (split_path ''b.txt''))
     = Inr (Fresh [''srv'', ''server''] [''b.txt''])"
    by (simp add: Resolve_def creating_def lookup_def quota_sandbox_def)
  have l: "lookup (disk ?st) (target_path (Fresh [''srv'', ''server''] [''b.txt''])) \<noteq> Some Dir"
    by (simp add: lookup_def target_path_def)
  have q: "quota quota_sandbox
      < usage ?st + (int (length (replicate 50 (0::byte)))
          - size_at (disk ?st) (target_path (Fresh [''srv'', ''server''] [''b.txt''])))"
    by (simp add: quota_sandbox_def size_at_def lookup_def target_path_def)
  have "Write quota_sandbox ?st ''b.txt'' (replicate 50 0) 420 = (Some QuotaExceeded, ?st)"
    using Write_over_quota [of quota_sandbox ?st "''b.txt''"
        "Fresh [''srv'', ''server''] [''b.txt'']" "replicate 50 0" 420] c l q
    by blast
  with c l q show ?thesis
    by (simp add: target_path_def size_at_def lookup_def)
qed

text \<open>
  C5. When the path names a symlink inside the root, \<open>Delete\<close> succeeds and removes the
  entry of the link and nothing else: the entry is gone, every other entry of the host
  tree, inside or outside the root, is as before (so the link's target, where it
  exists, still exists with its content), and the usage does not change.
\<close>

theorem Delete_symlink_only_link:
  assumes "strict (Resolve sb (disk st) False (split_path p)) = Inr rp"
    and "lookup (disk st) rp = Some (Symlink t)"
    and "rp \<noteq> root sb"
  shows "fst (Delete sb st p) = None \<and>
         lookup (disk (snd (Delete sb st p))) rp = None \<and>
         (\<forall>q. q \<noteq> rp \<longrightarrow> lookup (disk (snd (Delete sb st p))) q = lookup (disk st) q) \<and>
         (t \<noteq> rp \<longrightarrow> lookup (disk (snd (Delete sb st p))) t = lookup (disk st) t) \<and>
         usage (snd (Delete sb st p)) = usage st"
  using assms
  by (simp add: Delete_def lookup_def AList.delete_conv' node_size_def Release_def)

lemma test_symlinked_nofollow:
  "strict (Resolve test_sandbox (disk test_state) False (split_path ''symlinked.txt''))
     = Inr (rfs_root @ [''server'', ''symlinked.txt''])"
  by (simp add: Resolve_def strict_def test_defs)

theorem Delete_symlink_only_link_witness:
  "strict (Resolve test_sandbox (disk test_state) False (split_path ''symlinked.txt''))
     = Inr (rfs_root @ [''server'', ''symlinked.txt'']) \<and>
   lookup (disk test_state) (rfs_root @ [''server'', ''symlinked.txt''])
     = Some (Symlink (rfs_root @ [''malicious.txt''])) \<and>
   rfs_root @ [''server'', ''symlinked.txt''] \<noteq> root test_sandbox \<and>
   fst (Delete test_sandbox test_state ''symlinked.txt'') = None \<and>
   lookup (disk (snd (Delete test_sandbox test_state ''symlinked.txt'')))
      (rfs_root @ [''server'', ''symlinked.txt'']) = None \<and>
   lookup (disk (snd (Delete test_sandbox test_state ''symlinked.txt'')))
      (rfs_root @ [''malicious.txt''])
     = Some (File [101, 120, 116, 101, 114, 110, 97, 108, 32, 99, 111, 110, 116, 101, 110, 116] 420)"
proof -
  have l: "lookup (disk test_state) (rfs_root @ [''server'', ''symlinked.txt''])
     = Some (Symlink (rfs_root @ [''malicious.txt'']))"
    by (simp add: test_defs)
  have n: "rfs_root @ [''server'', ''symlinked.txt''] \<noteq> root test_sandbox"
    by (simp add: test_defs)
  have o: "rfs_root @ [''malicious.txt''] \<noteq> rfs_root @ [''server'', ''symlinked.txt'']"
    by simp
  have m: "lookup (disk test_state) (rfs_root @ [''malicious.txt''])
     = Some (File [101, 120, 116, 101, 114, 110, 97, 108, 32, 99, 111, 110, 116, 101, 110, 116] 420)"
    by (simp add: test_defs)
  from Delete_symlink_only_link [OF test_symlinked_nofollow l n] o m
  have "fst (Delete test_sandbox test_state ''symlinked.txt'') = None"
    and "lookup (disk (snd (Delete test_sandbox test_state ''symlinked.txt'')))
      (rfs_root @ [''server'', ''symlinked.txt'']) = None"
    and "lookup (disk (snd (Delete test_sandbox test_state ''symlinked.txt'')))
      (rfs_root @ [''malicious.txt''])
     = Some (File [101, 120, 116, 101, 114, 110, 97, 108, 32, 99, 111, 110, 116, 101, 110, 116] 420)"
    by simp_all
  with test_symlinked_nofollow l n show ?thesis by blast
qed

text \<open>
  C6. When \<open>a\<close> names a symlink inside the root (wherever the link points, also outside
  the root) and the destination \<open>b\<close> is acceptable (it resolves in creating mode to a
  place other than \<open>a\<close> that is not an existing directory), \<open>Rename\<close> succeeds and moves the
  link itself: the old name is gone and the new name holds a symlink with the same
  target.
\<close>

theorem Rename_symlink_relocates_link:
  assumes "strict (Resolve sb (disk st) False (split_path a)) = Inr src"
    and "lookup (disk st) src = Some (Symlink t)"
    and "src \<noteq> root sb"
    and "creating (Resolve sb (disk st) False (split_path b)) = Inr tg"
    and "target_path tg \<noteq> src"
    and "lookup (disk st) (target_path tg) \<noteq> Some Dir"
  shows "fst (Rename sb st a b) = None \<and>
         lookup (disk (snd (Rename sb st a b))) src = None \<and>
         lookup (disk (snd (Rename sb st a b))) (target_path tg) = Some (Symlink t)"
  using assms
  by (simp add: Rename_def lookup_def AList.delete_conv' AList.update_conv' Let_def)

theorem Rename_symlink_relocates_link_witness:
  "strict (Resolve test_sandbox (disk test_state) False (split_path ''symlinked.txt''))
     = Inr (rfs_root @ [''server'', ''symlinked.txt'']) \<and>
   lookup (disk test_state) (rfs_root @ [''server'', ''symlinked.txt''])
     = Some (Symlink (rfs_root @ [''malicious.txt''])) \<and>
   creating (Resolve test_sandbox (disk test_state) False (split_path ''foo.txt''))
     = Inr (Fresh (rfs_root @ [''server'']) [''foo.txt'']) \<and>
   fst (Rename test_sandbox test_state ''symlinked.txt'' ''foo.txt'') = None \<and>
   lookup (disk (snd (Rename test_sandbox test_state ''symlinked.txt'' ''foo.txt'')))
      (rfs_root @ [''server'', ''symlinked.txt'']) = None \<and>
   lookup (disk (snd (Rename test_sandbox test_state ''symlinked.txt'' ''foo.txt'')))
      (rfs_root @ [''server'', ''foo.txt'']) = Some (Symlink (rfs_root @ [''malicious.txt'']))"
proof -
  have l: "lookup (disk test_state) (rfs_root @ [''server'', ''symlinked.txt''])
     = Some (Symlink (rfs_root @ [''malicious.txt'']))"
    by (simp add: test_defs)
  have n: "rfs_root @ [''server'', ''symlinked.txt''] \<noteq> root test_sandbox"
    by (simp add: test_defs)
  have c: "creating (Resolve test_sandbox (disk test_state) False (split_path ''foo.txt''))
     = Inr (Fresh (rfs_root @ [''server'']) [''foo.txt''])"
    by (simp add: Resolve_def creating_def test_defs)
  have tp: "target_path (Fresh (rfs_root @ [''server'']) [''foo.txt''])
     = rfs_root @ [''server'', ''foo.txt'']"
    by (simp add: target_path_def)
  have ne: "target_path (Fresh (rfs_root @ [''server'']) [''foo.txt''])
     \<noteq> rfs_root @ [''server'', ''symlinked.txt'']"
    by (simp add: target_path_def)
  have nd: "lookup (disk test_state) (target_path (Fresh (rfs_root @ [''server'']) [''foo.txt'']))
     \<noteq> Some Dir"
    by (simp add: target_path_def test_defs)
  from Rename_symlink_relocates_link [OF test_symlinked_nofollow l n c ne nd]
    test_symlinked_nofollow l c
  show ?thesis unfolding tp by blast
qed

end
